theory Spec2Isabelle
  imports Main
begin

section \<open>Data model of \<open>src/components/health.astro\<close>\<close>

text \<open>
  The seven request methods admitted by the content schema (\<open>content.config.ts\<close>) and by
  the \<open>method\<close> field of \<open>EndpointEntryData\<close>.
\<close>

datatype http_method = GET | POST | PUT | DELETE | PATCH | HEAD | OPTIONS

text \<open>
  The optional \<open>body\<close> of an endpoint is \<open>any\<close> value read from \<open>endpoints.json\<close>, that is
  a JSON value. Numbers are kept to the integers: no definition below computes with them,
  only their truthiness is read.
\<close>

datatype json =
    JNull
  | JBool bool
  | JNum int
  | JStr string
  | JArr "json list"
  | JObj "(string \<times> json) list"

text \<open>JavaScript truthiness of a JSON value, as read by \<open>endpoint.body && ...\<close>.\<close>

fun truthy_json :: "json \<Rightarrow> bool" where
  "truthy_json JNull = False"
| "truthy_json (JBool b) = b"
| "truthy_json (JNum n) = (n \<noteq> 0)"
| "truthy_json (JStr s) = (s \<noteq> [])"
| "truthy_json (JArr xs) = True"
| "truthy_json (JObj kvs) = True"

text \<open>
  \<open>interface EndpointEntryData\<close>. \<open>expectedStatus\<close> is a positive integer by the schema
  (\<open>z.number().int().positive()\<close>); \<open>headers\<close> is a \<open>Record<string, string>\<close>, kept as an
  association list in insertion order.
\<close>

record EndpointEntryData =
  name :: string
  url :: string
  "method" :: http_method
  expectedStatus :: nat
  description :: "string option"
  headers :: "(string \<times> string) list option"
  body :: "json option"

datatype health = Healthy | Unhealthy | Error | Pending

text \<open>
  \<open>interface EndpointStatus\<close>: the fields of the content collection followed by the
  dynamically added ones. An optional field that is \<open>undefined\<close> is \<open>None\<close>.
\<close>

record EndpointStatus = EndpointEntryData +
  status :: health
  statusCode :: "nat option"
  statusText :: "string option"
  errorMessage :: "string option"

text \<open>\<open>interface CacheData\<close>; \<open>lastChecked\<close> is a \<open>Date.now()\<close> value in milliseconds.\<close>

record CacheData =
  statuses :: "EndpointStatus list"
  lastChecked :: int

definition CACHE_DURATION_MS :: int where
  "CACHE_DURATION_MS = 60 * 1000"

text \<open>The delay given to \<open>setTimeout(() => controller.abort(), 5000)\<close>.\<close>

definition ABORT_AFTER_MS :: nat where
  "ABORT_AFTER_MS = 5000"

section \<open>Strings\<close>

text \<open>
  What a template literal \<open>${n}\<close> gives for a number that is a non-negative safe integer
  (at most \<open>Number.MAX_SAFE_INTEGER\<close>): its decimal digits. Beyond that bound the literal
  prints the shortest digits that read back as the same double (\<open>2^64\<close> prints as
  \<open>18446744073709552000\<close>, \<open>10^21\<close> as \<open>1e+21\<close>), which \<open>number_to_string\<close> does not
  give: a statement about the digits carries the bound.
\<close>

definition MAX_SAFE_INTEGER :: nat where
  "MAX_SAFE_INTEGER = 2 ^ 53 - 1"

definition digit_char :: "nat \<Rightarrow> char" where
  "digit_char d = char_of (48 + d)"

fun number_to_string :: "nat \<Rightarrow> string" where
  "number_to_string n =
     (if n < 10 then [digit_char n]
      else number_to_string (n div 10) @ [digit_char (n mod 10)])"

declare number_to_string.simps [simp del]

text \<open>
  The decimal numeral of a number, said without \<open>number_to_string\<close>: a non-empty string
  of digits whose value is the number, with no leading zero.
\<close>

definition is_digit :: "char \<Rightarrow> bool" where
  "is_digit c = (48 \<le> (of_char c :: nat) \<and> (of_char c :: nat) \<le> 57)"

definition decimal_value :: "string \<Rightarrow> nat" where
  "decimal_value s = foldl (\<lambda>a c. 10 * a + (of_char c - 48)) 0 s"

definition decimal_numeral :: "nat \<Rightarrow> string \<Rightarrow> bool" where
  "decimal_numeral n s =
     (s \<noteq> [] \<and> list_all is_digit s \<and> decimal_value s = n \<and> (hd s = CHR ''0'' \<longrightarrow> s = ''0''))"

text \<open>\<open>String.prototype.toLowerCase\<close> on the ASCII letters.\<close>

definition lower_char :: "char \<Rightarrow> char" where
  "lower_char c =
     (let n = (of_char c :: nat) in if 65 \<le> n \<and> n \<le> 90 then char_of (n + 32) else c)"

definition toLowerCase :: "string \<Rightarrow> string" where
  "toLowerCase s = map lower_char s"

text \<open>\<open>String.prototype.includes\<close>: \<open>t\<close> occurs in \<open>s\<close> as a contiguous substring.\<close>

fun includes_str :: "string \<Rightarrow> string \<Rightarrow> bool" where
  "includes_str [] t = (t = [])"
| "includes_str (c # s) t = (take (length t) (c # s) = t \<or> includes_str s t)"

section \<open>One probe\<close>

text \<open>
  How the \<open>fetch\<close> of one endpoint settles: the promise resolves with a response, of which
  the code reads \<open>status\<close> and \<open>statusText\<close>, or it rejects with an error, of which the code
  reads \<open>name\<close> and \<open>message\<close>.
\<close>

datatype fetch_result =
    Resolved nat string
  | Rejected string string

text \<open>
  What the network does with the request, left alone: it answers after some milliseconds,
  it fails after some milliseconds (DNS, refused connection, TLS), or it stays silent.
\<close>

datatype net_result =
    Responds nat nat string
  | Fails nat string string
  | Hangs

text \<open>
  The request carries \<open>controller.signal\<close> and the timer calls \<open>controller.abort()\<close> after
  \<open>ABORT_AFTER_MS\<close>: a transaction that has not settled before that moment is aborted, and
  \<open>fetch\<close> rejects with the \<open>AbortError\<close> of the runtime. The result is the number of
  milliseconds after which the promise settles, and how.
\<close>

definition abort_error :: fetch_result where
  "abort_error = Rejected ''AbortError'' ''This operation was aborted''"

fun settle :: "net_result \<Rightarrow> nat \<times> fetch_result" where
  "settle (Responds ms code text) =
     (if ms < ABORT_AFTER_MS then (ms, Resolved code text) else (ABORT_AFTER_MS, abort_error))"
| "settle (Fails ms nm msg) =
     (if ms < ABORT_AFTER_MS then (ms, Rejected nm msg) else (ABORT_AFTER_MS, abort_error))"
| "settle Hangs = (ABORT_AFTER_MS, abort_error)"

text \<open>The message of lines 153 and 168.\<close>

definition mismatch_message :: "nat \<Rightarrow> nat \<Rightarrow> string" where
  "mismatch_message expected actual =
     ''Expected status '' @ number_to_string expected @ '' but got '' @ number_to_string actual"

text \<open>The object pushed on \<open>failedEndpoints\<close> (lines 142 to 154).\<close>

definition pushed_entry :: "EndpointEntryData \<Rightarrow> nat \<Rightarrow> string \<Rightarrow> EndpointStatus" where
  "pushed_entry endpoint code text =
     \<lparr> name = name endpoint,
       url = url endpoint,
       method = method endpoint,
       expectedStatus = expectedStatus endpoint,
       description = description endpoint,
       headers = headers endpoint,
       body = body endpoint,
       status = Unhealthy,
       statusCode = Some code,
       statusText = Some text,
       errorMessage = Some (mismatch_message (expectedStatus endpoint) code) \<rparr>"

text \<open>The object returned after a completed transaction (lines 157 to 169).\<close>

definition returned_entry :: "EndpointEntryData \<Rightarrow> nat \<Rightarrow> string \<Rightarrow> EndpointStatus" where
  "returned_entry endpoint code text =
     (let isSuccess = (code = expectedStatus endpoint) in
      \<lparr> name = name endpoint,
        url = url endpoint,
        method = method endpoint,
        expectedStatus = expectedStatus endpoint,
        description = description endpoint,
        headers = headers endpoint,
        body = body endpoint,
        status = (if isSuccess then Healthy else Unhealthy),
        statusCode = Some code,
        statusText = Some text,
        errorMessage =
          (if isSuccess then None else Some (mismatch_message (expectedStatus endpoint) code)) \<rparr>)"

text \<open>The object returned by the \<open>catch\<close> block (lines 170 to 189).\<close>

definition caught_entry :: "EndpointEntryData \<Rightarrow> string \<Rightarrow> string \<Rightarrow> EndpointStatus" where
  "caught_entry endpoint nm msg =
     (let errorMessage0 =
        (if nm = ''AbortError'' \<or> includes_str (toLowerCase msg) ''timed out''
            \<or> includes_str (toLowerCase msg) ''aborted''
         then ''Request timed out or was aborted.'' else msg) in
      \<lparr> name = name endpoint,
        url = url endpoint,
        method = method endpoint,
        expectedStatus = expectedStatus endpoint,
        description = description endpoint,
        headers = headers endpoint,
        body = body endpoint,
        status = Error,
        statusCode = None,
        statusText = None,
        errorMessage = Some errorMessage0 \<rparr>)"

text \<open>
  The continuation of one callback of \<open>endpointCollectionEntries.map\<close> once its \<open>fetch\<close> has
  settled: the objects it pushes on \<open>failedEndpoints\<close>, and the object it returns.
\<close>

fun after_fetch :: "EndpointEntryData \<Rightarrow> fetch_result \<Rightarrow> EndpointStatus list \<times> EndpointStatus" where
  "after_fetch endpoint (Resolved code text) =
     ((if code \<noteq> expectedStatus endpoint then [pushed_entry endpoint code text] else []),
      returned_entry endpoint code text)"
| "after_fetch endpoint (Rejected nm msg) = ([], caught_entry endpoint nm msg)"

text \<open>
  The Prober: one endpoint, what the network does with its request, and the outcome
  the callback returns.
\<close>

definition probe :: "EndpointEntryData \<Rightarrow> net_result \<Rightarrow> EndpointStatus" where
  "probe endpoint answer = snd (after_fetch endpoint (snd (settle answer)))"

text \<open>No transaction settles before the timer fires: the request is aborted.\<close>

fun deadline_reached :: "net_result \<Rightarrow> bool" where
  "deadline_reached (Responds ms code text) = (\<not> ms < ABORT_AFTER_MS)"
| "deadline_reached (Fails ms nm msg) = (\<not> ms < ABORT_AFTER_MS)"
| "deadline_reached Hangs = True"

section \<open>The request of a probe\<close>

text \<open>
  \<open>fetchOptions\<close> together with the URL (lines 118 to 134). \<open>req_body\<close> is the value handed
  to \<open>JSON.stringify\<close>.
\<close>

record fetch_request =
  req_url :: string
  req_method :: http_method
  req_headers :: "(string \<times> string) list"
  req_body :: "json option"

text \<open>\<open>headers[k] = v\<close> on an object: an existing key keeps its place, a new one comes last.\<close>

fun set_header :: "string \<Rightarrow> string \<Rightarrow> (string \<times> string) list \<Rightarrow> (string \<times> string) list" where
  "set_header k v [] = [(k, v)]"
| "set_header k v ((k', v') # hs) =
     (if k' = k then (k, v) # hs else (k', v') # set_header k v hs)"

text \<open>\<open>!headers[k]\<close>: the key is missing or its value is the empty string.\<close>

definition header_falsy :: "(string \<times> string) list \<Rightarrow> string \<Rightarrow> bool" where
  "header_falsy hs k = (case map_of hs k of None \<Rightarrow> True | Some v \<Rightarrow> v = [])"

definition sends_body :: "EndpointEntryData \<Rightarrow> bool" where
  "sends_body endpoint =
     ((case body endpoint of None \<Rightarrow> False | Some b \<Rightarrow> truthy_json b)
      \<and> (method endpoint = POST \<or> method endpoint = PUT \<or> method endpoint = PATCH))"

definition build_request :: "EndpointEntryData \<Rightarrow> fetch_request" where
  "build_request endpoint =
     (let hs = (case headers endpoint of None \<Rightarrow> [] | Some h \<Rightarrow> h) in
      if sends_body endpoint
      then \<lparr> req_url = url endpoint,
             req_method = method endpoint,
             req_headers =
               (if header_falsy hs ''Content-Type''
                then set_header ''Content-Type'' ''application/json'' hs else hs),
             req_body = body endpoint \<rparr>
      else \<lparr> req_url = url endpoint,
             req_method = method endpoint,
             req_headers = hs,
             req_body = None \<rparr>)"

section \<open>The process and its surroundings\<close>

text \<open>
  What the code can change or observe outside its own variables: the clock read by
  \<open>Date.now()\<close>, the cache cell on \<open>globalThis\<close>, the probes and the provider calls sent so
  far, and the console.
\<close>

datatype console_entry =
    LastFetched "int option"
  | ErrorLogged string

record email_request =
  mail_url :: string
  mail_authorization :: string
  mail_from :: string
  mail_to :: string
  mail_subject :: string
  mail_html :: string

record world =
  clock :: int
  cache :: "CacheData option"
  fetched :: "fetch_request list"
  mailed :: "email_request list"
  console :: "console_entry list"

text \<open>\<open>getGlobalCache\<close> and \<open>setGlobalCache\<close>: \<open>globalThis\<close> is always defined in the runtime.\<close>

definition getGlobalCache :: "world \<Rightarrow> CacheData option" where
  "getGlobalCache w = cache w"

definition setGlobalCache :: "CacheData \<Rightarrow> world \<Rightarrow> world" where
  "setGlobalCache data w = w\<lparr>cache := Some data\<rparr>"

section \<open>The Notifier\<close>

text \<open>What the provider does with the call: it answers (with a JSON body or not) or the
  transport fails.\<close>

datatype mail_result =
    MailAnswered nat bool
  | MailFailed string

definition status_string :: "health \<Rightarrow> string" where
  "status_string h =
     (case h of Healthy \<Rightarrow> ''Healthy'' | Unhealthy \<Rightarrow> ''Unhealthy''
      | Error \<Rightarrow> ''Error'' | Pending \<Rightarrow> ''Pending'')"

definition email_content :: "EndpointStatus list \<Rightarrow> string" where
  "email_content endpoits =
     foldl (\<lambda>content endpoint.
              content @ ''<li>'' @ name endpoint @ '': '' @ status_string (status endpoint) @ ''</li>'')
       ''<ul>'' endpoits @ ''</ul>''"

text \<open>\<open>import.meta.env\<close>: variable name to value.\<close>

type_synonym environment = "string \<Rightarrow> string option"

definition env_string :: "environment \<Rightarrow> string \<Rightarrow> string" where
  "env_string env k = (case env k of None \<Rightarrow> ''undefined'' | Some v \<Rightarrow> v)"

definition env_truthy :: "environment \<Rightarrow> string \<Rightarrow> bool" where
  "env_truthy env k = (case env k of None \<Rightarrow> False | Some v \<Rightarrow> v \<noteq> [])"

definition email_request_of :: "environment \<Rightarrow> EndpointStatus list \<Rightarrow> email_request" where
  "email_request_of env endpoits =
     \<lparr> mail_url = ''https://api.resend.com/emails'',
       mail_authorization = ''Bearer '' @ env_string env ''PUBLIC_RESEND_API_KEY'',
       mail_from = ''health@jsft.dk'',
       mail_to = ''jojokbh@gmail.com'',
       mail_subject = ''Health check failed'',
       mail_html = ''<strong>'' @ email_content endpoits @ ''</strong>'' \<rparr>"

text \<open>
  What the \<open>try\<close> block of \<open>sendEmail\<close> leaves on the console: nothing when the provider
  answers with a JSON body, whatever its status; the caught error otherwise.
\<close>

fun send_errors :: "mail_result \<Rightarrow> console_entry list" where
  "send_errors (MailAnswered code parses) =
     (if parses then [] else [ErrorLogged ''SyntaxError''])"
| "send_errors (MailFailed msg) = [ErrorLogged msg]"

text \<open>
  \<open>sendEmail\<close> (lines 73 to 97). The call is not awaited by its caller; its effects are
  the one call to the provider and, later, the console line of the \<open>catch\<close> block.
\<close>

definition sendEmail :: "environment \<Rightarrow> EndpointStatus list \<Rightarrow> mail_result \<Rightarrow> world \<Rightarrow> world" where
  "sendEmail env endpoits answer w =
     w\<lparr> mailed := mailed w @ [email_request_of env endpoits],
        console := console w @ send_errors answer \<rparr>"

section \<open>The Checker\<close>

text \<open>
  The callbacks of \<open>endpointCollectionEntries.map\<close> all run up to their \<open>await fetch\<close>, in
  input order; each one continues when its own \<open>fetch\<close> settles, and runs to its end
  without another \<open>await\<close>. So a run is decided by the order in which the probes settle:
  a list of indices into the entries. \<open>settled\<close> holds the promises of the callbacks, by
  index: \<open>None\<close> is a pending promise.
\<close>

record run_state =
  failedEndpoints :: "EndpointStatus list"
  settled :: "EndpointStatus option list"

definition on_settled ::
  "EndpointEntryData list \<Rightarrow> (nat \<Rightarrow> net_result) \<Rightarrow> nat \<Rightarrow> run_state \<Rightarrow> run_state" where
  "on_settled entries net i s =
     (if i < length entries
      then (case after_fetch (entries ! i) (snd (settle (net i))) of
              (pushed, returned) \<Rightarrow>
                \<lparr> failedEndpoints = failedEndpoints s @ pushed,
                  settled = (settled s)[i := Some returned] \<rparr>)
      else s)"

definition probe_all ::
  "EndpointEntryData list \<Rightarrow> (nat \<Rightarrow> net_result) \<Rightarrow> nat list \<Rightarrow> run_state" where
  "probe_all entries net order =
     fold (on_settled entries net) order
       \<lparr> failedEndpoints = [], settled = replicate (length entries) None \<rparr>"

text \<open>\<open>Promise.all\<close>: the values by index once every promise has resolved; pending (\<open>None\<close>)
  as long as one of them is.\<close>

fun promise_all :: "'a option list \<Rightarrow> 'a list option" where
  "promise_all [] = Some []"
| "promise_all (None # ps) = None"
| "promise_all (Some v # ps) = map_option ((#) v) (promise_all ps)"

text \<open>Every probe settles once: the order is a permutation of the indices.\<close>

definition completion_order :: "nat \<Rightarrow> nat list \<Rightarrow> bool" where
  "completion_order n order = (sort order = [0..<n])"

text \<open>Milliseconds from the start of the probes until the last of them has settled.\<close>

definition run_duration :: "EndpointEntryData list \<Rightarrow> (nat \<Rightarrow> net_result) \<Rightarrow> nat" where
  "run_duration entries net =
     fold max (map (\<lambda>i. fst (settle (net i))) [0..<length entries]) 0"

section \<open>The Result Cache: \<open>getEndpointStatuses\<close>\<close>

text \<open>Lines 193 to 195.\<close>

definition notify :: "environment \<Rightarrow> EndpointStatus list \<Rightarrow> mail_result \<Rightarrow> world \<Rightarrow> world" where
  "notify env failed answer w =
     (if env_truthy env ''PUBLIC_RESEND_API_KEY'' \<and> 0 < length failed
      then sendEmail env failed answer w else w)"

text \<open>
  Lines 110 to 199: the run after a cache miss, started at the moment \<open>now\<close>. The result
  is \<open>None\<close> when \<open>Promise.all\<close> stays pending. The clock stands at the settling of the last
  probe when \<open>Promise.all\<close> resolves.
\<close>

definition refresh ::
  "environment \<Rightarrow> EndpointEntryData list \<Rightarrow> (nat \<Rightarrow> net_result) \<Rightarrow> nat list \<Rightarrow> mail_result
     \<Rightarrow> int \<Rightarrow> world \<Rightarrow> (CacheData \<times> world) option" where
  "refresh env entries net order answer now w =
     (let w2 = w\<lparr>fetched := fetched w @ map build_request entries\<rparr>;
          run = probe_all entries net order
      in case promise_all (settled run) of
           None \<Rightarrow> None
         | Some sts \<Rightarrow>
             (let w3 = w2\<lparr>clock := now + int (run_duration entries net)\<rparr>;
                  w4 = notify env (failedEndpoints run) answer w3;
                  newCacheData = \<lparr> statuses = sts, lastChecked = now \<rparr>
              in Some (newCacheData, setGlobalCache newCacheData w4)))"

text \<open>\<open>getEndpointStatuses\<close> (lines 100 to 200).\<close>

definition getEndpointStatuses ::
  "environment \<Rightarrow> EndpointEntryData list \<Rightarrow> (nat \<Rightarrow> net_result) \<Rightarrow> nat list \<Rightarrow> mail_result
     \<Rightarrow> world \<Rightarrow> (CacheData \<times> world) option" where
  "getEndpointStatuses env entries net order answer w =
     (let currentCache = getGlobalCache w;
          w1 = w\<lparr>console := console w @ [LastFetched (map_option lastChecked currentCache)]\<rparr>;
          now = clock w1
      in case currentCache of
           None \<Rightarrow> refresh env entries net order answer now w1
         | Some c \<Rightarrow>
             if now - lastChecked c < CACHE_DURATION_MS then Some (c, w1)
             else refresh env entries net order answer now w1)"

section \<open>Example inputs\<close>

text \<open>
  Three endpoints: the first two answer with a status that is not the expected one, the
  second sooner than the first, and the third never answers. An environment that holds a
  credential, a sender and a recipient. A process that has just started.
\<close>

definition ex_A :: EndpointEntryData where
  "ex_A = \<lparr> name = ''A'', url = ''http://ok.test'', method = GET, expectedStatus = 200,
            description = None, headers = None, body = None \<rparr>"

definition ex_B :: EndpointEntryData where
  "ex_B = \<lparr> name = ''B'', url = ''http://bad.test'', method = GET, expectedStatus = 200,
            description = None, headers = None, body = None \<rparr>"

definition ex_C :: EndpointEntryData where
  "ex_C = \<lparr> name = ''C'', url = ''http://slow.test'', method = POST, expectedStatus = 201,
            description = Some ''never answers'', headers = Some [(''X-Probe'', ''1'')],
            body = Some (JObj [(''ping'', JBool True)]) \<rparr>"

definition ex_entries :: "EndpointEntryData list" where
  "ex_entries = [ex_A, ex_B, ex_C]"

definition ex_net :: "nat \<Rightarrow> net_result" where
  "ex_net i =
     (if i = 0 then Responds 300 503 ''Service Unavailable''
      else if i = 1 then Responds 100 500 ''Internal Server Error''
      else Hangs)"

definition ex_env :: environment where
  "ex_env = [''PUBLIC_RESEND_API_KEY'' \<mapsto> ''re_test_key'',
             ''EMAIL_FROM'' \<mapsto> ''alerts@example.org'',
             ''EMAIL_TO'' \<mapsto> ''ops@example.org'']"

definition ex_world :: world where
  "ex_world = \<lparr> clock = 1000, cache = None, fetched = [], mailed = [], console = [] \<rparr>"

text \<open>A cache entry written at the moment 1000, read 59999 and 60000 milliseconds later.\<close>

definition ex_cache :: CacheData where
  "ex_cache = \<lparr> statuses = [probe ex_A (Responds 10 200 ''OK'')], lastChecked = 1000 \<rparr>"

definition ex_fresh_world :: world where
  "ex_fresh_world =
     \<lparr> clock = 60999, cache = Some ex_cache, fetched = [build_request ex_A], mailed = [],
       console = [LastFetched None] \<rparr>"

definition ex_stale_world :: world where
  "ex_stale_world =
     \<lparr> clock = 61000, cache = Some ex_cache, fetched = [build_request ex_A], mailed = [],
       console = [LastFetched None] \<rparr>"

text \<open>An environment without the credential, and a network that answers every probe
  after a quarter of a second.\<close>

definition ex_no_key :: environment where
  "ex_no_key = [''EMAIL_TO'' \<mapsto> ''ops@example.org'']"

definition ex_slow_net :: "nat \<Rightarrow> net_result" where
  "ex_slow_net i = Responds 250 200 ''OK''"

text \<open>A network on which no probe is ever answered.\<close>

definition ex_silent_net :: "nat \<Rightarrow> net_result" where
  "ex_silent_net i = Hangs"

section \<open>The digits of a number\<close>

lemma of_char_digit_char: "d < 10 \<Longrightarrow> (of_char (digit_char d) :: nat) = 48 + d"
  by (simp add: digit_char_def)

lemma is_digit_digit_char: "d < 10 \<Longrightarrow> is_digit (digit_char d)"
  by (simp add: is_digit_def of_char_digit_char)

lemma decimal_value_snoc:
  "decimal_value (s @ [c]) = 10 * decimal_value s + (of_char c - 48)"
  by (simp add: decimal_value_def)

lemma number_to_string_nonempty: "number_to_string n \<noteq> []"
  by (subst number_to_string.simps) simp

lemma number_to_string_digits: "list_all is_digit (number_to_string n)"
proof (induction n rule: number_to_string.induct)
  case (1 n)
  show ?case
  proof (cases "n < 10")
    case True
    then show ?thesis by (subst number_to_string.simps) (simp add: is_digit_digit_char)
  next
    case False
    with 1 show ?thesis by (subst number_to_string.simps) (simp add: is_digit_digit_char)
  qed
qed

lemma number_to_string_value: "decimal_value (number_to_string n) = n"
proof (induction n rule: number_to_string.induct)
  case (1 n)
  show ?case
  proof (cases "n < 10")
    case True
    then show ?thesis
      by (subst number_to_string.simps) (simp add: decimal_value_def of_char_digit_char)
  next
    case False
    with 1 show ?thesis
      by (subst number_to_string.simps) (simp add: decimal_value_snoc of_char_digit_char)
  qed
qed

lemma number_to_string_hd: "hd (number_to_string n) = CHR ''0'' \<Longrightarrow> n = 0"
proof (induction n rule: number_to_string.induct)
  case (1 n)
  show ?case
  proof (cases "n < 10")
    case True
    from "1.prems" True have "digit_char n = CHR ''0''"
      by (subst (asm) number_to_string.simps) simp
    then have "(of_char (digit_char n) :: nat) = of_char (CHR ''0'')" by simp
    with True show ?thesis by (simp add: of_char_digit_char)
  next
    case False
    from "1.prems" False have "hd (number_to_string (n div 10)) = CHR ''0''"
      by (subst (asm) number_to_string.simps) (simp add: number_to_string_nonempty)
    with "1.IH" False have "n div 10 = 0" by simp
    with False show ?thesis by simp
  qed
qed

lemma number_to_string_zero: "number_to_string 0 = ''0''"
  by code_simp

lemma decimal_numeral_number_to_string: "decimal_numeral n (number_to_string n)"
  unfolding decimal_numeral_def
  using number_to_string_hd [of n] number_to_string_zero
  by (auto simp: number_to_string_nonempty number_to_string_digits number_to_string_value)

lemma digit_char_of_char: "is_digit c \<Longrightarrow> digit_char (of_char c - 48) = c"
  by (simp add: is_digit_def digit_char_def)

lemma decimal_value_pos:
  "s \<noteq> [] \<Longrightarrow> list_all is_digit s \<Longrightarrow> hd s \<noteq> CHR ''0'' \<Longrightarrow> 0 < decimal_value s"
proof (induction s rule: rev_induct)
  case Nil
  then show ?case by simp
next
  case (snoc c s)
  show ?case
  proof (cases "s = []")
    case True
    with snoc.prems have "is_digit c" "c \<noteq> CHR ''0''" by simp_all
    then have "(of_char c :: nat) \<noteq> of_char (CHR ''0'')"
      by (metis of_char_eq_iff)
    then have "(of_char c :: nat) \<noteq> 48" by simp
    with \<open>is_digit c\<close> True show ?thesis
      by (simp add: decimal_value_def is_digit_def)
  next
    case False
    with snoc have "0 < decimal_value s" by simp
    then show ?thesis by (simp add: decimal_value_snoc)
  qed
qed

lemma decimal_numeral_is_number_to_string:
  "decimal_numeral n s \<Longrightarrow> s = number_to_string n"
proof (induction s arbitrary: n rule: rev_induct)
  case Nil
  then show ?case by (simp add: decimal_numeral_def)
next
  case (snoc c s)
  let ?d = "(of_char c :: nat) - 48"
  from snoc.prems have c: "is_digit c" and ds: "list_all is_digit s"
    and v: "n = 10 * decimal_value s + ?d"
    and z: "hd (s @ [c]) = CHR ''0'' \<longrightarrow> s @ [c] = ''0''"
    by (simp_all add: decimal_numeral_def decimal_value_snoc)
  have d: "?d < 10" using c by (auto simp: is_digit_def)
  show ?case
  proof (cases "s = []")
    case True
    with v d have "n < 10" "n = ?d" by (simp_all add: decimal_value_def)
    then show ?thesis
      using True c by (subst number_to_string.simps) (simp add: digit_char_of_char)
  next
    case False
    with z have h: "hd s \<noteq> CHR ''0''" by auto
    have pos: "0 < decimal_value s" by (rule decimal_value_pos [OF False ds h])
    have "decimal_numeral (decimal_value s) s"
      using False ds h by (simp add: decimal_numeral_def)
    then have s: "s = number_to_string (decimal_value s)" by (rule snoc.IH)
    have "\<not> n < 10" "n div 10 = decimal_value s" "n mod 10 = ?d"
      using v d pos by simp_all
    then have "number_to_string n = number_to_string (decimal_value s) @ [digit_char ?d]"
      by (subst number_to_string.simps) simp
    with s c show ?thesis by (simp add: digit_char_of_char)
  qed
qed

lemma decimal_numeral_unique:
  "decimal_numeral n s \<Longrightarrow> decimal_numeral n t \<Longrightarrow> s = t"
  using decimal_numeral_is_number_to_string [of n s] decimal_numeral_is_number_to_string [of n t]
  by simp

section \<open>Properties of the Checker\<close>

lemma pushed_is_returned:
  "code \<noteq> expectedStatus endpoint \<Longrightarrow> pushed_entry endpoint code text = returned_entry endpoint code text"
  by (simp add: pushed_entry_def returned_entry_def)

lemma status_returned_entry:
  "status (returned_entry endpoint code text) = (if code = expectedStatus endpoint then Healthy else Unhealthy)"
  by (simp add: returned_entry_def)

lemma status_caught_entry: "status (caught_entry endpoint nm msg) = Error"
  by (simp add: caught_entry_def Let_def)

lemma after_fetch_pushed:
  "fst (after_fetch endpoint r) =
     (if status (snd (after_fetch endpoint r)) = Unhealthy then [snd (after_fetch endpoint r)] else [])"
  by (cases r) (simp_all add: status_returned_entry status_caught_entry pushed_is_returned)

lemma on_settled_in:
  "i < length entries \<Longrightarrow>
   on_settled entries net i s =
     \<lparr> failedEndpoints = failedEndpoints s @ fst (after_fetch (entries ! i) (snd (settle (net i)))),
       settled = (settled s)[i := Some (probe (entries ! i) (net i))] \<rparr>"
  by (simp add: on_settled_def probe_def split: prod.split)

lemma on_settled_out: "\<not> i < length entries \<Longrightarrow> on_settled entries net i s = s"
  by (simp add: on_settled_def)

lemma fold_on_settled:
  "fold (on_settled entries net) order s =
     \<lparr> failedEndpoints = failedEndpoints s @
          concat (map (\<lambda>i. fst (after_fetch (entries ! i) (snd (settle (net i)))))
                   (filter (\<lambda>i. i < length entries) order)),
       settled = fold (\<lambda>i xs. xs[i := Some (probe (entries ! i) (net i))])
                   (filter (\<lambda>i. i < length entries) order) (settled s) \<rparr>"
proof (induction order arbitrary: s)
  case Nil
  show ?case by simp
next
  case (Cons i order)
  show ?case
    by (cases "i < length entries") (simp_all add: Cons.IH on_settled_in on_settled_out)
qed

lemma length_fold_update:
  "length (fold (\<lambda>i xs. xs[i := f i]) order xs) = length xs"
  by (induction order arbitrary: xs) simp_all

lemma nth_fold_update:
  "k < length xs \<Longrightarrow>
   fold (\<lambda>i xs. xs[i := f i]) order xs ! k = (if k \<in> set order then f k else xs ! k)"
proof (induction order arbitrary: xs)
  case Nil
  show ?case by simp
next
  case (Cons i order)
  have "k < length (xs[i := f i])" using Cons.prems by simp
  from Cons.IH [OF this] show ?case
    using Cons.prems by (auto simp: nth_list_update)
qed

lemma promise_all_Some: "promise_all (map Some ys) = Some ys"
  by (induction ys) simp_all

lemma completion_order_set: "completion_order n order \<Longrightarrow> set order = {0..<n}"
  unfolding completion_order_def by (metis set_sort set_upt)

lemma completion_order_filter:
  "completion_order n order \<Longrightarrow> filter (\<lambda>i. i < n) order = order"
  by (auto dest: completion_order_set intro: filter_True)

lemma settled_probe_all:
  assumes "completion_order (length entries) order"
  shows "settled (probe_all entries net order) =
           map Some (map (\<lambda>i. probe (entries ! i) (net i)) [0..<length entries])"
proof (rule nth_equalityI)
  show "length (settled (probe_all entries net order)) =
          length (map Some (map (\<lambda>i. probe (entries ! i) (net i)) [0..<length entries]))"
    by (simp add: probe_all_def fold_on_settled length_fold_update)
next
  fix k assume "k < length (settled (probe_all entries net order))"
  then have k: "k < length entries"
    by (simp add: probe_all_def fold_on_settled length_fold_update)
  then have "k \<in> set order" using completion_order_set [OF assms] by simp
  with k show "settled (probe_all entries net order) ! k =
          map Some (map (\<lambda>i. probe (entries ! i) (net i)) [0..<length entries]) ! k"
    by (simp add: probe_all_def fold_on_settled completion_order_filter [OF assms] nth_fold_update)
qed

lemma promise_all_probe_all:
  "completion_order (length entries) order \<Longrightarrow>
   promise_all (settled (probe_all entries net order)) =
     Some (map (\<lambda>i. probe (entries ! i) (net i)) [0..<length entries])"
  unfolding settled_probe_all by (rule promise_all_Some)

lemma concat_map_if:
  "concat (map (\<lambda>i. if P (f i) then [f i] else []) xs) = filter P (map f xs)"
  by (induction xs) simp_all

lemma failed_probe_all:
  "completion_order (length entries) order \<Longrightarrow>
   failedEndpoints (probe_all entries net order) =
     filter (\<lambda>s. status s = Unhealthy) (map (\<lambda>i. probe (entries ! i) (net i)) order)"
  by (simp add: probe_all_def fold_on_settled completion_order_filter after_fetch_pushed
      concat_map_if [where P = "\<lambda>s. status s = Unhealthy" and f = "\<lambda>i. snd (after_fetch (entries ! i) (snd (settle (net i))))"]
      probe_def)

lemma refresh_run:
  assumes "completion_order (length entries) order"
  shows "refresh env entries net order answer now w =
     Some (\<lparr> statuses = map (\<lambda>i. probe (entries ! i) (net i)) [0..<length entries],
              lastChecked = now \<rparr>,
           setGlobalCache
             \<lparr> statuses = map (\<lambda>i. probe (entries ! i) (net i)) [0..<length entries],
               lastChecked = now \<rparr>
             (notify env (failedEndpoints (probe_all entries net order)) answer
                (w\<lparr> fetched := fetched w @ map build_request entries,
                    clock := now + int (run_duration entries net) \<rparr>)))"
  by (simp add: refresh_def promise_all_probe_all [OF assms] Let_def)

lemma number_to_string_examples:
  "number_to_string 200 = ''200''" "number_to_string 500 = ''500''"
  "number_to_string 201 = ''201''" "number_to_string 404 = ''404''"
  by code_simp+

lemma probe_fields:
  "name (probe endpoint answer) = name endpoint"
  "url (probe endpoint answer) = url endpoint"
  "method (probe endpoint answer) = method endpoint"
  "expectedStatus (probe endpoint answer) = expectedStatus endpoint"
  by (cases "snd (settle answer)";
      simp add: probe_def returned_entry_def caught_entry_def Let_def)+

lemma settle_deadline: "deadline_reached answer \<Longrightarrow> snd (settle answer) = abort_error"
  by (cases answer) simp_all

lemma probe_aborted:
  "deadline_reached answer \<Longrightarrow>
   probe endpoint answer = caught_entry endpoint ''AbortError'' ''This operation was aborted''"
  by (simp add: probe_def settle_deadline abort_error_def)

lemma getEndpointStatuses_fresh:
  assumes "cache w = Some c" and "clock w - lastChecked c < 60000"
  shows "getEndpointStatuses env entries net order answer w =
           Some (c, w\<lparr>console := console w @ [LastFetched (Some (lastChecked c))]\<rparr>)"
  using assms by (simp add: getEndpointStatuses_def getGlobalCache_def CACHE_DURATION_MS_def)

lemma getEndpointStatuses_stale:
  assumes "case cache w of None \<Rightarrow> True | Some c \<Rightarrow> \<not> clock w - lastChecked c < 60000"
  shows "getEndpointStatuses env entries net order answer w =
           refresh env entries net order answer (clock w)
             (w\<lparr>console := console w @ [LastFetched (map_option lastChecked (cache w))]\<rparr>)"
  using assms
  by (simp add: getEndpointStatuses_def getGlobalCache_def CACHE_DURATION_MS_def
      split: option.splits)

lemma getEndpointStatuses_run:
  assumes "case cache w of None \<Rightarrow> True | Some c \<Rightarrow> \<not> clock w - lastChecked c < 60000"
    and "completion_order (length entries) order"
  shows "getEndpointStatuses env entries net order answer w =
     Some (\<lparr> statuses = map (\<lambda>i. probe (entries ! i) (net i)) [0..<length entries],
              lastChecked = clock w \<rparr>,
           setGlobalCache
             \<lparr> statuses = map (\<lambda>i. probe (entries ! i) (net i)) [0..<length entries],
               lastChecked = clock w \<rparr>
             (notify env (failedEndpoints (probe_all entries net order)) answer
                (w\<lparr> console := console w @ [LastFetched (map_option lastChecked (cache w))],
                    fetched := fetched w @ map build_request entries,
                    clock := clock w + int (run_duration entries net) \<rparr>)))"
  by (simp add: getEndpointStatuses_stale [OF assms(1)] refresh_run [OF assms(2)])

lemma notify_fields:
  "cache (notify env failed answer w) = cache w"
  "clock (notify env failed answer w) = clock w"
  "fetched (notify env failed answer w) = fetched w"
  "mailed (notify env failed answer w) =
     mailed w @ (if env_truthy env ''PUBLIC_RESEND_API_KEY'' \<and> failed \<noteq> []
                 then [email_request_of env failed] else [])"
  by (simp_all add: notify_def sendEmail_def)

lemma setGlobalCache_fields:
  "cache (setGlobalCache d w) = Some d"
  "clock (setGlobalCache d w) = clock w"
  "fetched (setGlobalCache d w) = fetched w"
  "mailed (setGlobalCache d w) = mailed w"
  "console (setGlobalCache d w) = console w"
  by (simp_all add: setGlobalCache_def)

lemma fold_max_ge: "(m::nat) \<le> fold max xs m"
proof (induction xs arbitrary: m)
  case Nil
  show ?case by simp
next
  case (Cons y ys)
  have "m \<le> max y m" by simp
  also have "max y m \<le> fold max ys (max y m)" by (rule Cons.IH)
  finally show ?case by simp
qed

lemma fold_max_member: "x \<in> set xs \<Longrightarrow> (x::nat) \<le> fold max xs m"
proof (induction xs arbitrary: m)
  case Nil
  then show ?case by simp
next
  case (Cons y ys)
  show ?case
  proof (cases "x = y")
    case True
    have "x \<le> max y m" using True by simp
    also have "max y m \<le> fold max ys (max y m)" by (rule fold_max_ge)
    finally show ?thesis by simp
  next
    case False
    with Cons.prems have "x \<in> set ys" by simp
    from Cons.IH [OF this] show ?thesis by simp
  qed
qed

lemma settle_le_run_duration:
  "i < length entries \<Longrightarrow> fst (settle (net i)) \<le> run_duration entries net"
  unfolding run_duration_def by (rule fold_max_member) simp

section \<open>The example run\<close>

lemma ex_order: "completion_order (length ex_entries) [1, 0, 2]"
  by (simp add: completion_order_def ex_entries_def)

lemma ex_net_simps:
  "ex_net 0 = Responds 300 503 ''Service Unavailable''"
  "ex_net (Suc 0) = Responds 100 500 ''Internal Server Error''"
  "ex_net 2 = Hangs"
  "ex_net (Suc (Suc n)) = Hangs"
  by (simp_all add: ex_net_def)

lemma ex_outcomes:
  "promise_all (settled (probe_all ex_entries ex_net [1, 0, 2])) =
     Some [probe ex_A (Responds 300 503 ''Service Unavailable''),
           probe ex_B (Responds 100 500 ''Internal Server Error''),
           probe ex_C Hangs]"
  using promise_all_probe_all [OF ex_order, of ex_net]
  by (simp add: ex_entries_def upt_rec ex_net_simps)

lemma ex_statuses:
  "status (probe ex_A (Responds 300 503 ''Service Unavailable'')) = Unhealthy"
  "status (probe ex_B (Responds 100 500 ''Internal Server Error'')) = Unhealthy"
  "status (probe ex_C Hangs) = Error"
  by (simp_all add: probe_def ABORT_AFTER_MS_def abort_error_def
      status_returned_entry status_caught_entry ex_A_def ex_B_def)

lemma ex_failed:
  "failedEndpoints (probe_all ex_entries ex_net [1, 0, 2]) =
     [probe ex_B (Responds 100 500 ''Internal Server Error''),
      probe ex_A (Responds 300 503 ''Service Unavailable'')]"
  using failed_probe_all [OF ex_order, of ex_net]
  by (simp add: ex_entries_def ex_net_simps ex_statuses)

lemma ex_fresh: "cache ex_fresh_world = Some ex_cache"
  "clock ex_fresh_world - lastChecked ex_cache < 60000"
  by (simp_all add: ex_fresh_world_def ex_cache_def)

lemma ex_stale:
  "case cache ex_stale_world of None \<Rightarrow> True
   | Some c \<Rightarrow> \<not> clock ex_stale_world - lastChecked c < 60000"
  by (simp add: ex_stale_world_def ex_cache_def)

lemma ex_world_stale:
  "case cache ex_world of None \<Rightarrow> True | Some c \<Rightarrow> \<not> clock ex_world - lastChecked c < 60000"
  by (simp add: ex_world_def)

lemma ex_truthy:
  "env_truthy ex_env ''PUBLIC_RESEND_API_KEY''"
  "\<not> env_truthy ex_no_key ''PUBLIC_RESEND_API_KEY''"
  by (simp_all add: env_truthy_def ex_env_def ex_no_key_def)

lemma ex_silent_order: "completion_order (length [ex_C]) [0]"
  by (simp add: completion_order_def)

lemma ex_slow_order: "completion_order (length [ex_A]) [0]"
  by (simp add: completion_order_def)

lemma ex_slow_duration: "run_duration [ex_A] ex_slow_net = 250"
  by (simp add: run_duration_def ex_slow_net_def ABORT_AFTER_MS_def)

section \<open>What the notification is gated on\<close>

text \<open>
  Line 193 reads the length of \<open>failedEndpoints\<close>, the list the callbacks have pushed on:
  the provider is called once when that list is not empty and the credential is set, and
  not at all otherwise.
\<close>

lemma notify_gates_on_failedEndpoints:
  assumes "case cache w of None \<Rightarrow> True | Some c \<Rightarrow> \<not> clock w - lastChecked c < 60000"
    and "completion_order (length entries) order"
    and "getEndpointStatuses env entries net order answer w = Some (r, w')"
  shows "(failedEndpoints (probe_all entries net order) = [] \<longrightarrow> mailed w' = mailed w)
         \<and> (failedEndpoints (probe_all entries net order) \<noteq> []
              \<and> env_truthy env ''PUBLIC_RESEND_API_KEY'' \<longrightarrow>
            mailed w' =
              mailed w @ [email_request_of env (failedEndpoints (probe_all entries net order))])
         \<and> (\<not> env_truthy env ''PUBLIC_RESEND_API_KEY'' \<longrightarrow> mailed w' = mailed w)"
  using assms(3)
  by (auto simp: getEndpointStatuses_run [OF assms(1,2)] setGlobalCache_fields notify_fields)

lemma notify_gates_on_failedEndpoints_example:
  "completion_order (length ex_entries) [1, 0, 2]
   \<and> cache ex_world = None
   \<and> length (failedEndpoints (probe_all ex_entries ex_net [1, 0, 2])) = 2
   \<and> env_truthy ex_env ''PUBLIC_RESEND_API_KEY''
   \<and> (\<exists>r w'. getEndpointStatuses ex_env ex_entries ex_net [1, 0, 2] (MailAnswered 200 True)
                ex_world = Some (r, w')
          \<and> mailed w' =
               [email_request_of ex_env (failedEndpoints (probe_all ex_entries ex_net [1, 0, 2]))])
   \<and> ex_no_key ''PUBLIC_RESEND_API_KEY'' = None
   \<and> (\<exists>r w'. getEndpointStatuses ex_no_key ex_entries ex_net [1, 0, 2] (MailAnswered 200 True)
                ex_world = Some (r, w')
          \<and> mailed w' = [])"
proof -
  obtain r w' where g: "getEndpointStatuses ex_env ex_entries ex_net [1, 0, 2]
      (MailAnswered 200 True) ex_world = Some (r, w')"
    using getEndpointStatuses_run [OF ex_world_stale ex_order] by blast
  obtain r0 w0 where g0: "getEndpointStatuses ex_no_key ex_entries ex_net [1, 0, 2]
      (MailAnswered 200 True) ex_world = Some (r0, w0)"
    using getEndpointStatuses_run [OF ex_world_stale ex_order] by blast
  have f: "failedEndpoints (probe_all ex_entries ex_net [1, 0, 2]) \<noteq> []"
    "length (failedEndpoints (probe_all ex_entries ex_net [1, 0, 2])) = 2"
    using ex_failed by simp_all
  have "mailed w' =
      mailed ex_world @ [email_request_of ex_env (failedEndpoints (probe_all ex_entries ex_net [1, 0, 2]))]"
    using notify_gates_on_failedEndpoints [OF ex_world_stale ex_order g] f ex_truthy by blast
  moreover have "mailed w0 = mailed ex_world"
    using notify_gates_on_failedEndpoints [OF ex_world_stale ex_order g0] ex_truthy by blast
  moreover have "mailed ex_world = []" "cache ex_world = None"
    "ex_no_key ''PUBLIC_RESEND_API_KEY'' = None"
    by (simp_all add: ex_world_def ex_no_key_def)
  ultimately show ?thesis using g g0 f ex_order ex_truthy by simp
qed

section \<open>The claims\<close>

text \<open>
  C1, as amended. The failures subset of a Checker run holds no Healthy outcome, and its
  Unhealthy entries are the Unhealthy outcomes of the run, each one the very value found
  in \<open>outcomes\<close>, in the order in which the probes settled; that is input order when
  the probes settle in input order. Nothing is said of Error outcomes.
\<close>

theorem failures_hold_unhealthy_by_completion:
  assumes "completion_order (length entries) order"
    and "promise_all (settled (probe_all entries net order)) = Some sts"
  shows "filter (\<lambda>s. status s = Unhealthy) (failedEndpoints (probe_all entries net order)) =
           filter (\<lambda>s. status s = Unhealthy) (map (\<lambda>i. sts ! i) order)
         \<and> (\<forall>f \<in> set (failedEndpoints (probe_all entries net order)).
               status f \<noteq> Healthy \<and> f \<in> set sts)
         \<and> (order = [0..<length entries] \<longrightarrow>
               filter (\<lambda>s. status s = Unhealthy) (failedEndpoints (probe_all entries net order)) =
                 filter (\<lambda>s. status s = Unhealthy) sts)"
proof -
  let ?f = "\<lambda>i. probe (entries ! i) (net i)"
  have sts: "sts = map ?f [0..<length entries]"
    using assms(2) by (simp add: promise_all_probe_all [OF assms(1)])
  have set: "set order = {0..<length entries}" by (rule completion_order_set [OF assms(1)])
  have byorder: "map (\<lambda>i. sts ! i) order = map ?f order"
    using set by (simp add: sts)
  have failed: "failedEndpoints (probe_all entries net order) =
      filter (\<lambda>s. status s = Unhealthy) (map (\<lambda>i. sts ! i) order)"
    by (simp add: failed_probe_all [OF assms(1)] byorder)
  have a: "filter (\<lambda>s. status s = Unhealthy) (failedEndpoints (probe_all entries net order)) =
           filter (\<lambda>s. status s = Unhealthy) (map (\<lambda>i. sts ! i) order)"
    by (simp add: failed)
  have "set (map (\<lambda>i. sts ! i) order) = set sts"
    unfolding byorder by (simp add: sts set)
  then have b: "\<forall>f \<in> set (failedEndpoints (probe_all entries net order)).
               status f \<noteq> Healthy \<and> f \<in> set sts"
    by (auto simp: failed)
  have "map (\<lambda>i. sts ! i) [0..<length entries] = sts"
    using map_nth [of sts] by (simp add: sts)
  then have c: "order = [0..<length entries] \<longrightarrow>
               filter (\<lambda>s. status s = Unhealthy) (failedEndpoints (probe_all entries net order)) =
                 filter (\<lambda>s. status s = Unhealthy) sts"
    using a by auto
  from a b c show ?thesis by blast
qed

theorem failures_hold_unhealthy_by_completion_witness:
  "completion_order (length ex_entries) [1, 0, 2]
   \<and> promise_all (settled (probe_all ex_entries ex_net [1, 0, 2])) =
        Some [probe ex_A (Responds 300 503 ''Service Unavailable''),
              probe ex_B (Responds 100 500 ''Internal Server Error''),
              probe ex_C Hangs]
   \<and> filter (\<lambda>s. status s = Unhealthy) (failedEndpoints (probe_all ex_entries ex_net [1, 0, 2])) =
        [probe ex_B (Responds 100 500 ''Internal Server Error''),
         probe ex_A (Responds 300 503 ''Service Unavailable'')]"
  using failures_hold_unhealthy_by_completion [OF ex_order ex_outcomes] ex_order ex_outcomes
  by (simp add: ex_statuses)

text \<open>
  The claim as written fails on the example: the second endpoint answers before the
  first, so its entry is pushed first, and the third endpoint, which never answers, has
  an Error outcome that is not pushed at all.
\<close>

theorem failures_counterexample:
  "failedEndpoints (probe_all ex_entries ex_net [1, 0, 2]) =
     [probe ex_B (Responds 100 500 ''Internal Server Error''),
      probe ex_A (Responds 300 503 ''Service Unavailable'')]
   \<and> map_option (filter (\<lambda>s. status s \<noteq> Healthy))
        (promise_all (settled (probe_all ex_entries ex_net [1, 0, 2]))) =
       Some [probe ex_A (Responds 300 503 ''Service Unavailable''),
             probe ex_B (Responds 100 500 ''Internal Server Error''),
             probe ex_C Hangs]
   \<and> status (probe ex_C Hangs) = Error
   \<and> probe ex_C Hangs \<notin> set (failedEndpoints (probe_all ex_entries ex_net [1, 0, 2]))
   \<and> Some (failedEndpoints (probe_all ex_entries ex_net [1, 0, 2])) \<noteq>
       map_option (filter (\<lambda>s. status s \<noteq> Healthy))
         (promise_all (settled (probe_all ex_entries ex_net [1, 0, 2])))"
proof -
  have "probe ex_C Hangs \<noteq> probe ex_A (Responds 300 503 ''Service Unavailable'')"
    "probe ex_C Hangs \<noteq> probe ex_B (Responds 100 500 ''Internal Server Error'')"
    using ex_statuses by auto
  then show ?thesis using ex_failed ex_outcomes by (simp add: ex_statuses)
qed

text \<open>
  C2. A probe whose transaction completes before the deadline is classified by the
  received status code alone: equal to \<open>expectedStatus\<close>, the outcome is Healthy and has no
  \<open>errorMessage\<close>; different, the outcome is Unhealthy, its \<open>statusCode\<close> is the received
  status, and its \<open>errorMessage\<close> is \<open>Expected status {expected} but got {actual}\<close>, the two
  numbers written as decimal numerals when both are safe integers.
\<close>

theorem completed_probe_classified:
  assumes "ms < ABORT_AFTER_MS"
  shows "(if code = expectedStatus D
          then status (probe D (Responds ms code text)) = Healthy
             \<and> errorMessage (probe D (Responds ms code text)) = None
          else status (probe D (Responds ms code text)) = Unhealthy
             \<and> statusCode (probe D (Responds ms code text)) = Some code
             \<and> (expectedStatus D \<le> MAX_SAFE_INTEGER \<and> code \<le> MAX_SAFE_INTEGER \<longrightarrow>
                  (\<exists>expected actual.
                     errorMessage (probe D (Responds ms code text)) =
                       Some (''Expected status '' @ expected @ '' but got '' @ actual)
                     \<and> decimal_numeral (expectedStatus D) expected
                     \<and> decimal_numeral code actual)))"
proof (cases "code = expectedStatus D")
  case True
  with assms show ?thesis by (simp add: probe_def returned_entry_def)
next
  case False
  have "errorMessage (probe D (Responds ms code text)) =
          Some (''Expected status '' @ number_to_string (expectedStatus D)
                @ '' but got '' @ number_to_string code)"
    using assms False by (simp add: probe_def returned_entry_def mismatch_message_def)
  then have "\<exists>expected actual.
      errorMessage (probe D (Responds ms code text)) =
        Some (''Expected status '' @ expected @ '' but got '' @ actual)
      \<and> decimal_numeral (expectedStatus D) expected
      \<and> decimal_numeral code actual"
    using decimal_numeral_number_to_string by blast
  moreover have "status (probe D (Responds ms code text)) = Unhealthy"
    "statusCode (probe D (Responds ms code text)) = Some code"
    using assms False by (simp_all add: probe_def returned_entry_def)
  ultimately show ?thesis using False by simp
qed

theorem completed_probe_classified_witness:
  "(10::nat) < ABORT_AFTER_MS
   \<and> expectedStatus ex_A = 200 \<and> expectedStatus ex_C = 201
   \<and> (200::nat) \<le> MAX_SAFE_INTEGER \<and> (500::nat) \<le> MAX_SAFE_INTEGER
   \<and> (201::nat) \<le> MAX_SAFE_INTEGER \<and> (404::nat) \<le> MAX_SAFE_INTEGER
   \<and> status (probe ex_A (Responds 10 200 ''OK'')) = Healthy
   \<and> errorMessage (probe ex_A (Responds 10 200 ''OK'')) = None
   \<and> status (probe ex_A (Responds 10 500 ''Internal Server Error'')) = Unhealthy
   \<and> statusCode (probe ex_A (Responds 10 500 ''Internal Server Error'')) = Some 500
   \<and> errorMessage (probe ex_A (Responds 10 500 ''Internal Server Error'')) =
        Some ''Expected status 200 but got 500''
   \<and> status (probe ex_C (Responds 10 404 ''Not Found'')) = Unhealthy
   \<and> statusCode (probe ex_C (Responds 10 404 ''Not Found'')) = Some 404
   \<and> errorMessage (probe ex_C (Responds 10 404 ''Not Found'')) =
        Some ''Expected status 201 but got 404''"
proof -
  have t: "(10::nat) < ABORT_AFTER_MS" by (simp add: ABORT_AFTER_MS_def)
  have e: "expectedStatus ex_A = 200" "expectedStatus ex_C = 201"
    by (simp_all add: ex_A_def ex_C_def)
  have b: "(200::nat) \<le> MAX_SAFE_INTEGER" "(201::nat) \<le> MAX_SAFE_INTEGER"
    "(500::nat) \<le> MAX_SAFE_INTEGER" "(404::nat) \<le> MAX_SAFE_INTEGER"
    by (simp_all add: MAX_SAFE_INTEGER_def)
  have ok: "status (probe ex_A (Responds 10 200 ''OK'')) = Healthy"
    "errorMessage (probe ex_A (Responds 10 200 ''OK'')) = None"
    using completed_probe_classified [OF t, of 200 ex_A "''OK''"] e by simp_all
  from completed_probe_classified [OF t, of 500 ex_A "''Internal Server Error''"] e b
  obtain x y where a: "status (probe ex_A (Responds 10 500 ''Internal Server Error'')) = Unhealthy"
    "statusCode (probe ex_A (Responds 10 500 ''Internal Server Error'')) = Some 500"
    "errorMessage (probe ex_A (Responds 10 500 ''Internal Server Error'')) =
       Some (''Expected status '' @ x @ '' but got '' @ y)"
    and xy: "decimal_numeral 200 x" "decimal_numeral 500 y"
    by auto
  from completed_probe_classified [OF t, of 404 ex_C "''Not Found''"] e b
  obtain u v where c: "status (probe ex_C (Responds 10 404 ''Not Found'')) = Unhealthy"
    "statusCode (probe ex_C (Responds 10 404 ''Not Found'')) = Some 404"
    "errorMessage (probe ex_C (Responds 10 404 ''Not Found'')) =
       Some (''Expected status '' @ u @ '' but got '' @ v)"
    and uv: "decimal_numeral 201 u" "decimal_numeral 404 v"
    by auto
  have "x = ''200''" "y = ''500''" "u = ''201''" "v = ''404''"
    using xy uv decimal_numeral_is_number_to_string number_to_string_examples by metis+
  with a c ok t e b show ?thesis by simp
qed

text \<open>
  C3. The outcomes of a Checker run are as many as the endpoint definitions, and the
  outcome at each index is the outcome of probing the definition at that index, with its
  name, url, method and expectedStatus, whatever the order in which the probes settle.
\<close>

theorem outcomes_follow_input_order:
  assumes "completion_order (length entries) order"
  shows "\<exists>sts. promise_all (settled (probe_all entries net order)) = Some sts
           \<and> length sts = length entries
           \<and> (\<forall>i<length entries.
                 sts ! i = probe (entries ! i) (net i)
                 \<and> name (sts ! i) = name (entries ! i)
                 \<and> url (sts ! i) = url (entries ! i)
                 \<and> method (sts ! i) = method (entries ! i)
                 \<and> expectedStatus (sts ! i) = expectedStatus (entries ! i))"
  by (simp add: promise_all_probe_all [OF assms] probe_fields)

theorem outcomes_follow_input_order_witness:
  "completion_order (length ex_entries) [1, 0, 2]
   \<and> (\<exists>sts. promise_all (settled (probe_all ex_entries ex_net [1, 0, 2])) = Some sts
          \<and> length sts = 3
          \<and> sts ! 0 = probe ex_A (ex_net 0) \<and> name (sts ! 0) = ''A''
          \<and> sts ! 1 = probe ex_B (ex_net 1) \<and> name (sts ! 1) = ''B''
          \<and> sts ! 2 = probe ex_C (ex_net 2) \<and> name (sts ! 2) = ''C'')"
proof -
  from outcomes_follow_input_order [OF ex_order, of ex_net]
  obtain sts where s: "promise_all (settled (probe_all ex_entries ex_net [1, 0, 2])) = Some sts"
    and l: "length sts = length ex_entries"
    and a: "\<forall>i<length ex_entries. sts ! i = probe (ex_entries ! i) (ex_net i)
                 \<and> name (sts ! i) = name (ex_entries ! i)"
    by blast
  have "length sts = 3" using l by (simp add: ex_entries_def)
  moreover have "sts ! 0 = probe ex_A (ex_net 0)" "sts ! 1 = probe ex_B (ex_net 1)"
       "sts ! 2 = probe ex_C (ex_net 2)"
       "name (sts ! 0) = ''A''" "name (sts ! 1) = ''B''" "name (sts ! 2) = ''C''"
    using a [rule_format, of 0] a [rule_format, of 1] a [rule_format, of 2]
    by (simp_all add: ex_entries_def ex_A_def ex_B_def ex_C_def probe_fields)
  ultimately show ?thesis using s ex_order by simp
qed

text \<open>
  C4. A request that finds a cached result less than 60 seconds old returns it and
  leaves the cache as it is, sending no probe and no notification. Any other request runs
  the Checker on every endpoint, stores the new result as the cached value and returns it.
\<close>

theorem cache_serves_fresh_else_refreshes:
  "(\<forall>c. cache w = Some c \<and> clock w - lastChecked c < 60000 \<longrightarrow>
      (\<exists>w'. getEndpointStatuses env entries net order answer w = Some (c, w')
         \<and> cache w' = Some c \<and> fetched w' = fetched w \<and> mailed w' = mailed w))
   \<and> ((case cache w of None \<Rightarrow> True | Some c \<Rightarrow> \<not> clock w - lastChecked c < 60000)
        \<and> completion_order (length entries) order \<longrightarrow>
      (\<exists>r w'. getEndpointStatuses env entries net order answer w = Some (r, w')
         \<and> promise_all (settled (probe_all entries net order)) = Some (statuses r)
         \<and> fetched w' = fetched w @ map build_request entries
         \<and> cache w' = Some r))"
proof (intro conjI allI impI)
  fix c assume "cache w = Some c \<and> clock w - lastChecked c < 60000"
  then show "\<exists>w'. getEndpointStatuses env entries net order answer w = Some (c, w')
         \<and> cache w' = Some c \<and> fetched w' = fetched w \<and> mailed w' = mailed w"
    by (simp add: getEndpointStatuses_fresh)
next
  assume a: "(case cache w of None \<Rightarrow> True | Some c \<Rightarrow> \<not> clock w - lastChecked c < 60000)
        \<and> completion_order (length entries) order"
  then have s: "case cache w of None \<Rightarrow> True | Some c \<Rightarrow> \<not> clock w - lastChecked c < 60000"
    and o: "completion_order (length entries) order" by simp_all
  show "\<exists>r w'. getEndpointStatuses env entries net order answer w = Some (r, w')
         \<and> promise_all (settled (probe_all entries net order)) = Some (statuses r)
         \<and> fetched w' = fetched w @ map build_request entries
         \<and> cache w' = Some r"
    by (simp add: getEndpointStatuses_run [OF s o] promise_all_probe_all [OF o]
        setGlobalCache_fields notify_fields)
qed

theorem cache_serves_fresh_else_refreshes_witness:
  "cache ex_fresh_world = Some ex_cache
   \<and> clock ex_fresh_world - lastChecked ex_cache = 59999
   \<and> (\<exists>w'. getEndpointStatuses ex_env ex_entries ex_net [1, 0, 2] (MailAnswered 200 True)
              ex_fresh_world = Some (ex_cache, w')
          \<and> cache w' = Some ex_cache \<and> fetched w' = [build_request ex_A] \<and> mailed w' = [])
   \<and> cache ex_stale_world = Some ex_cache
   \<and> clock ex_stale_world - lastChecked ex_cache = 60000
   \<and> completion_order (length ex_entries) [1, 0, 2]
   \<and> (\<exists>r w'. getEndpointStatuses ex_env ex_entries ex_net [1, 0, 2] (MailAnswered 200 True)
              ex_stale_world = Some (r, w')
          \<and> promise_all (settled (probe_all ex_entries ex_net [1, 0, 2])) = Some (statuses r)
          \<and> fetched w' = [build_request ex_A, build_request ex_A, build_request ex_B,
                           build_request ex_C]
          \<and> cache w' = Some r)"
proof -
  note t = cache_serves_fresh_else_refreshes
  have "\<exists>w'. getEndpointStatuses ex_env ex_entries ex_net [1, 0, 2] (MailAnswered 200 True)
              ex_fresh_world = Some (ex_cache, w')
          \<and> cache w' = Some ex_cache \<and> fetched w' = fetched ex_fresh_world
          \<and> mailed w' = mailed ex_fresh_world"
    using t [of ex_fresh_world ex_env ex_entries ex_net "[1, 0, 2]" "MailAnswered 200 True"]
      ex_fresh by blast
  moreover have "\<exists>r w'. getEndpointStatuses ex_env ex_entries ex_net [1, 0, 2]
              (MailAnswered 200 True) ex_stale_world = Some (r, w')
          \<and> promise_all (settled (probe_all ex_entries ex_net [1, 0, 2])) = Some (statuses r)
          \<and> fetched w' = fetched ex_stale_world @ map build_request ex_entries
          \<and> cache w' = Some r"
    using t [of ex_stale_world ex_env ex_entries ex_net "[1, 0, 2]" "MailAnswered 200 True"]
      ex_stale ex_order by blast
  moreover have "fetched ex_fresh_world = [build_request ex_A]" "mailed ex_fresh_world = []"
    "fetched ex_stale_world @ map build_request ex_entries =
       [build_request ex_A, build_request ex_A, build_request ex_B, build_request ex_C]"
    "cache ex_fresh_world = Some ex_cache" "cache ex_stale_world = Some ex_cache"
    "clock ex_fresh_world - lastChecked ex_cache = 59999"
    "clock ex_stale_world - lastChecked ex_cache = 60000"
    by (simp_all add: ex_fresh_world_def ex_stale_world_def ex_entries_def ex_cache_def)
  ultimately show ?thesis using ex_order by simp
qed

text \<open>
  C5. A probe that has not settled when the timer fires after 5 seconds yields an
  outcome with status Error, no \<open>statusCode\<close>, no \<open>statusText\<close> and the message
  \<open>Request timed out or was aborted.\<close>; the Checker run still resolves, with that outcome
  at the index of the endpoint.
\<close>

theorem timed_out_probe_is_error:
  assumes "completion_order (length entries) order"
    and "i < length entries"
    and "deadline_reached (net i)"
  shows "\<exists>sts. promise_all (settled (probe_all entries net order)) = Some sts
           \<and> status (sts ! i) = Error
           \<and> statusCode (sts ! i) = None
           \<and> statusText (sts ! i) = None
           \<and> errorMessage (sts ! i) = Some ''Request timed out or was aborted.''"
  using assms(2,3)
  by (simp add: promise_all_probe_all [OF assms(1)] probe_aborted caught_entry_def)

theorem timed_out_probe_is_error_witness:
  "ABORT_AFTER_MS = 5000
   \<and> completion_order (length ex_entries) [1, 0, 2]
   \<and> 2 < length ex_entries
   \<and> deadline_reached (ex_net 2)
   \<and> (\<exists>sts. promise_all (settled (probe_all ex_entries ex_net [1, 0, 2])) = Some sts
          \<and> status (sts ! 2) = Error
          \<and> statusCode (sts ! 2) = None
          \<and> statusText (sts ! 2) = None
          \<and> errorMessage (sts ! 2) = Some ''Request timed out or was aborted.'')"
proof -
  have l: "2 < length ex_entries" by (simp add: ex_entries_def)
  have d: "deadline_reached (ex_net 2)" by (simp add: ex_net_simps)
  from timed_out_probe_is_error [of ex_entries "[1, 0, 2]" 2 ex_net, OF ex_order l d] ex_order l d
  show ?thesis by (simp add: ABORT_AFTER_MS_def)
qed

text \<open>
  C6. The code on a run whose only endpoint never answers, with the credential set: the
  outcome of the run is an Error outcome, and the provider is not called.
\<close>

theorem error_only_run_sends_no_notification:
  "env_truthy ex_env ''PUBLIC_RESEND_API_KEY''
   \<and> map_option (\<lambda>(r, w'). (map status (statuses r), mailed w'))
        (getEndpointStatuses ex_env [ex_C] ex_silent_net [0] (MailAnswered 200 True) ex_world)
       = Some ([Error], [])"
  using getEndpointStatuses_run [OF ex_world_stale ex_silent_order, of ex_env ex_silent_net
      "MailAnswered 200 True"]
    failed_probe_all [OF ex_silent_order, of ex_silent_net] ex_statuses(3) ex_truthy(1)
  by (simp add: setGlobalCache_fields notify_fields ex_silent_net_def)
     (simp add: ex_world_def)

text \<open>
  C7. Whatever becomes of the notification call, the request returns the same result,
  stores the same cache entry and has sent the same probes and the same provider call: the
  answer of the provider reaches the console only.
\<close>

theorem notification_failure_is_absorbed:
  assumes "completion_order (length entries) order"
  shows "\<exists>r w1 w2.
           getEndpointStatuses env entries net order answer1 w = Some (r, w1)
         \<and> getEndpointStatuses env entries net order answer2 w = Some (r, w2)
         \<and> cache w1 = Some r \<and> cache w2 = Some r
         \<and> clock w1 = clock w2 \<and> fetched w1 = fetched w2 \<and> mailed w1 = mailed w2"
proof (cases "case cache w of None \<Rightarrow> True | Some c \<Rightarrow> \<not> clock w - lastChecked c < 60000")
  case True
  show ?thesis
    by (simp add: getEndpointStatuses_run [OF True assms] setGlobalCache_fields notify_fields)
next
  case False
  then obtain c where "cache w = Some c" "clock w - lastChecked c < 60000"
    by (auto split: option.splits)
  then show ?thesis by (simp add: getEndpointStatuses_fresh)
qed

theorem notification_failure_is_absorbed_witness:
  "completion_order (length ex_entries) [1, 0, 2]
   \<and> (\<exists>r w1 w2.
         getEndpointStatuses ex_env ex_entries ex_net [1, 0, 2] (MailAnswered 200 True) ex_world
           = Some (r, w1)
       \<and> getEndpointStatuses ex_env ex_entries ex_net [1, 0, 2] (MailFailed ''fetch failed'') ex_world
           = Some (r, w2)
       \<and> cache w1 = Some r \<and> cache w2 = Some r
       \<and> clock w1 = clock w2 \<and> fetched w1 = fetched w2 \<and> mailed w1 = mailed w2
       \<and> console w2 = console w1 @ [ErrorLogged ''fetch failed''])"
proof -
  from notification_failure_is_absorbed [OF ex_order, of ex_env ex_net "MailAnswered 200 True"
      ex_world "MailFailed ''fetch failed''"]
  obtain r w1 w2 where
    g1: "getEndpointStatuses ex_env ex_entries ex_net [1, 0, 2] (MailAnswered 200 True) ex_world
           = Some (r, w1)"
    and g2: "getEndpointStatuses ex_env ex_entries ex_net [1, 0, 2] (MailFailed ''fetch failed'')
           ex_world = Some (r, w2)"
    and same: "cache w1 = Some r" "cache w2 = Some r" "clock w1 = clock w2"
      "fetched w1 = fetched w2" "mailed w1 = mailed w2"
    by blast
  have "console w2 = console w1 @ [ErrorLogged ''fetch failed'']"
    using g1 g2 ex_failed
      getEndpointStatuses_run [OF ex_world_stale ex_order, of ex_env ex_net "MailAnswered 200 True"]
      getEndpointStatuses_run [OF ex_world_stale ex_order, of ex_env ex_net
        "MailFailed ''fetch failed''"]
    by (auto simp: setGlobalCache_def notify_def sendEmail_def ex_truthy)
  with g1 g2 same ex_order show ?thesis by blast
qed

text \<open>
  C8, as amended. The \<open>lastChecked\<close> of the stored result is the time read at the start
  of the request, before any probe is sent: it is not later than the settling of any probe
  of the run, each of which is not later than the end of the run.
\<close>

theorem lastChecked_is_start_of_run:
  assumes "case cache w of None \<Rightarrow> True | Some c \<Rightarrow> \<not> clock w - lastChecked c < 60000"
    and "completion_order (length entries) order"
    and "getEndpointStatuses env entries net order answer w = Some (r, w')"
  shows "cache w' = Some r
         \<and> lastChecked r = clock w
         \<and> (\<forall>i<length entries.
               lastChecked r \<le> clock w + int (fst (settle (net i)))
               \<and> clock w + int (fst (settle (net i))) \<le> clock w')
         \<and> lastChecked r \<le> clock w'"
proof -
  have r: "cache w' = Some r" "lastChecked r = clock w"
    and w': "clock w' = clock w + int (run_duration entries net)"
    using assms(3)
    by (auto simp: getEndpointStatuses_run [OF assms(1,2)] setGlobalCache_fields notify_fields)
  have "\<forall>i<length entries. clock w + int (fst (settle (net i))) \<le> clock w'"
    using settle_le_run_duration [of _ entries net] by (simp add: w')
  with r w' show ?thesis by simp
qed

theorem lastChecked_is_start_of_run_witness:
  "cache ex_world = None
   \<and> completion_order (length [ex_A]) [0]
   \<and> (\<exists>r w'. getEndpointStatuses ex_env [ex_A] ex_slow_net [0] (MailAnswered 200 True) ex_world
                = Some (r, w')
          \<and> cache w' = Some r
          \<and> lastChecked r = 1000)"
proof -
  obtain r w' where g: "getEndpointStatuses ex_env [ex_A] ex_slow_net [0]
      (MailAnswered 200 True) ex_world = Some (r, w')"
    using getEndpointStatuses_run [OF ex_world_stale ex_slow_order] by blast
  from lastChecked_is_start_of_run [OF ex_world_stale ex_slow_order g]
  have "cache w' = Some r" "lastChecked r = clock ex_world" by simp_all
  then have "cache w' = Some r" "lastChecked r = 1000"
    by (simp_all add: ex_world_def)
  moreover have "cache ex_world = None" by (simp add: ex_world_def)
  ultimately show ?thesis using g ex_slow_order by simp
qed

text \<open>
  The claim as written fails as soon as a probe takes time: the request starts at 1000,
  its only probe settles at 1250, and the stored \<open>lastChecked\<close> is 1000.
\<close>

theorem lastChecked_counterexample:
  "map_option (\<lambda>(r, w'). (lastChecked r, clock w'))
     (getEndpointStatuses ex_env [ex_A] ex_slow_net [0] (MailAnswered 200 True) ex_world)
     = Some (1000, 1250)
   \<and> clock ex_world + int (fst (settle (ex_slow_net 0))) = 1250"
  using getEndpointStatuses_run [OF ex_world_stale ex_slow_order, of ex_env ex_slow_net
      "MailAnswered 200 True"]
  by (simp add: setGlobalCache_fields notify_fields ex_slow_duration)
     (simp add: ex_world_def ex_slow_net_def ABORT_AFTER_MS_def)

text \<open>
  C9. The code at an environment that sets \<open>EMAIL_FROM\<close> and \<open>EMAIL_TO\<close>: the one
  notification of the run goes from and to the two addresses written in \<open>sendEmail\<close>.
\<close>

theorem configured_sender_and_recipient_are_ignored:
  "ex_env ''EMAIL_FROM'' = Some ''alerts@example.org''
   \<and> ex_env ''EMAIL_TO'' = Some ''ops@example.org''
   \<and> map_option (\<lambda>(r, w'). map (\<lambda>m. (mail_from m, mail_to m)) (mailed w'))
        (getEndpointStatuses ex_env ex_entries ex_net [1, 0, 2] (MailAnswered 200 True) ex_world)
       = Some [(''health@jsft.dk'', ''jojokbh@gmail.com'')]"
  using getEndpointStatuses_run [OF ex_world_stale ex_order, of ex_env ex_net
      "MailAnswered 200 True"] ex_failed
  by (simp add: setGlobalCache_fields notify_fields ex_truthy email_request_of_def)
     (simp add: ex_env_def ex_world_def)

text \<open>
  C10. For a probe classified Unhealthy, the one entry its callback pushes on
  \<open>failedEndpoints\<close> is equal to the outcome at its index in \<open>outcomes\<close>, field for field,
  and it is an element of the failures subset.
\<close>

theorem unhealthy_failure_equals_outcome:
  assumes "completion_order (length entries) order"
    and "promise_all (settled (probe_all entries net order)) = Some sts"
    and "i < length entries"
    and "status (sts ! i) = Unhealthy"
  shows "fst (after_fetch (entries ! i) (snd (settle (net i)))) = [sts ! i]
         \<and> sts ! i \<in> set (failedEndpoints (probe_all entries net order))"
proof -
  have sts: "sts = map (\<lambda>i. probe (entries ! i) (net i)) [0..<length entries]"
    using assms(2) by (simp add: promise_all_probe_all [OF assms(1)])
  then have i: "sts ! i = probe (entries ! i) (net i)" using assms(3) by simp
  have "i \<in> set order" using completion_order_set [OF assms(1)] assms(3) by simp
  then have "sts ! i \<in> set (failedEndpoints (probe_all entries net order))"
    using assms(4) i by (simp add: failed_probe_all [OF assms(1)])
  moreover have "fst (after_fetch (entries ! i) (snd (settle (net i)))) = [sts ! i]"
    using assms(4) i by (simp add: after_fetch_pushed probe_def)
  ultimately show ?thesis by simp
qed

theorem unhealthy_failure_equals_outcome_witness:
  "completion_order (length ex_entries) [1, 0, 2]
   \<and> promise_all (settled (probe_all ex_entries ex_net [1, 0, 2])) =
        Some [probe ex_A (Responds 300 503 ''Service Unavailable''),
              probe ex_B (Responds 100 500 ''Internal Server Error''),
              probe ex_C Hangs]
   \<and> (1::nat) < length ex_entries
   \<and> status (probe ex_B (Responds 100 500 ''Internal Server Error'')) = Unhealthy
   \<and> fst (after_fetch ex_B (snd (settle (Responds 100 500 ''Internal Server Error'')))) =
        [probe ex_B (Responds 100 500 ''Internal Server Error'')]
   \<and> probe ex_B (Responds 100 500 ''Internal Server Error'')
        \<in> set (failedEndpoints (probe_all ex_entries ex_net [1, 0, 2]))"
proof -
  have l: "(1::nat) < length ex_entries" by (simp add: ex_entries_def)
  have u: "status ([probe ex_A (Responds 300 503 ''Service Unavailable''),
                    probe ex_B (Responds 100 500 ''Internal Server Error''),
                    probe ex_C Hangs] ! 1) = Unhealthy"
    by (simp add: ex_statuses)
  from unhealthy_failure_equals_outcome [OF ex_order ex_outcomes l u] ex_order ex_outcomes l
  show ?thesis by (simp add: ex_entries_def ex_statuses ex_net_simps)
qed

end
